theory Spec2Isabelle
  imports Complex_Main "HOL-Library.Word"
begin

section \<open>Streaming statistics accumulators of \<^verbatim>\<open>kdp/stats.py\<close>\<close>

text \<open>
  The accumulators keep their state in \<^verbatim>\<open>tf.Variable\<close>s. Each variable becomes a record
  field and every \<^verbatim>\<open>update\<close> takes the state and returns the new one. A
  \<^verbatim>\<open>float32\<close> scalar is modelled as an exact \<^typ>\<open>real\<close>: rounding is not part
  of the model, so every statement below is about exact arithmetic.
\<close>

subsection \<open>WelfordAccumulator\<close>

text \<open>
  The fields \<^verbatim>\<open>n\<close>, \<^verbatim>\<open>mean\<close>, \<^verbatim>\<open>M2\<close> and \<^verbatim>\<open>var\<close>
  carry the prefix \<open>w_\<close>, since a record field is a global constant.
\<close>

record WelfordAccumulator =
  w_n :: real
  w_mean :: real
  w_M2 :: real
  w_var :: real

definition WelfordAccumulator_init :: WelfordAccumulator where
  "WelfordAccumulator_init = \<lparr>w_n = 0, w_mean = 0, w_M2 = 0, w_var = 0\<rparr>"

text \<open>
  \<^verbatim>\<open>update\<close>: \<^verbatim>\<open>delta\<close> is taken against the mean before the batch, the
  second factor of the \<^verbatim>\<open>M2\<close> summand reads the mean already assigned. The division
  \<^verbatim>\<open>delta / n\<close> is elementwise, so on an empty batch nothing is divided.
\<close>

definition WelfordAccumulator_update :: "WelfordAccumulator \<Rightarrow> real list \<Rightarrow> WelfordAccumulator" where
  "WelfordAccumulator_update s values =
     (let n = w_n s + real (length values);
          delta = map (\<lambda>v. v - w_mean s) values;
          s1 = s\<lparr>w_mean := w_mean s + sum_list (map (\<lambda>d. d / n) delta)\<rparr>;
          s2 = s1\<lparr>w_M2 := w_M2 s1 + sum_list (map2 (\<lambda>d v. d * (v - w_mean s1)) delta values)\<rparr>
      in s2\<lparr>w_n := n\<rparr>)"

definition WelfordAccumulator_variance :: "WelfordAccumulator \<Rightarrow> real" where
  "WelfordAccumulator_variance s = (if w_n s > 1 then w_M2 s / (w_n s - 1) else w_var s)"

definition WelfordAccumulator_count :: "WelfordAccumulator \<Rightarrow> real" where
  "WelfordAccumulator_count s = w_n s"

text \<open>Feeding a sequence of batches to one accumulator, in order.\<close>

definition welford_feed :: "WelfordAccumulator \<Rightarrow> real list list \<Rightarrow> WelfordAccumulator" where
  "welford_feed s batches = foldl WelfordAccumulator_update s batches"

subsection \<open>Tensors, element kinds and errors\<close>

text \<open>
  The element kinds a batch column can have. A tensor carries its kind with its data, so
  a column is well typed by construction. The date column, of shape \<^verbatim>\<open>[batch, 3]\<close>,
  is not among them: the DateAccumulator below takes its rows as triples.
\<close>

datatype DType = DT_string | DT_int32 | DT_int64 | DT_float32 | DT_float64 | DT_bool

datatype Tensor =
    StringTensor "string list"
  | Int32Tensor "32 word list"
  | Int64Tensor "64 word list"
  | Float32Tensor "real list"
  | Float64Tensor "real list"
  | BoolTensor "bool list"

fun tensor_dtype :: "Tensor \<Rightarrow> DType" where
  "tensor_dtype (StringTensor _) = DT_string"
| "tensor_dtype (Int32Tensor _) = DT_int32"
| "tensor_dtype (Int64Tensor _) = DT_int64"
| "tensor_dtype (Float32Tensor _) = DT_float32"
| "tensor_dtype (Float64Tensor _) = DT_float64"
| "tensor_dtype (BoolTensor _) = DT_bool"

datatype error = ValueError | TypeError | KeyError | AttributeError | UnicodeDecodeError

text \<open>
  \<^verbatim>\<open>tf.unique(x)[0]\<close>: the distinct elements of \<open>x\<close> in the order of their first
  occurrence.
\<close>

fun unique_into :: "'a list \<Rightarrow> 'a list \<Rightarrow> 'a list" where
  "unique_into seen [] = seen"
| "unique_into seen (x # xs) =
     (if x \<in> set seen then unique_into seen xs else unique_into (seen @ [x]) xs)"

definition tf_unique :: "'a list \<Rightarrow> 'a list" where
  "tf_unique xs = unique_into [] xs"

subsection \<open>CategoricalAccumulator\<close>

record CategoricalAccumulator =
  c_values :: "string list"
  c_int_values :: "32 word list"

definition CategoricalAccumulator_init :: CategoricalAccumulator where
  "CategoricalAccumulator_init = \<lparr>c_values = [], c_int_values = []\<rparr>"

text \<open>The \<^verbatim>\<open>raise ValueError\<close> of the last branch is the result \<open>Inl ValueError\<close>.\<close>

definition CategoricalAccumulator_update ::
    "CategoricalAccumulator \<Rightarrow> Tensor \<Rightarrow> error + CategoricalAccumulator" where
  "CategoricalAccumulator_update acc new_values =
     (case new_values of
        StringTensor xs \<Rightarrow> Inr (acc\<lparr>c_values := tf_unique (c_values acc @ xs)\<rparr>)
      | Int32Tensor xs \<Rightarrow> Inr (acc\<lparr>c_int_values := tf_unique (c_int_values acc @ xs)\<rparr>)
      | _ \<Rightarrow> Inl ValueError)"

text \<open>\<^verbatim>\<open>tf.strings.as_string\<close> on a signed 32-bit integer: its decimal numeral.\<close>

definition digit_char :: "nat \<Rightarrow> char" where
  "digit_char d = char_of (48 + d)"

fun nat_digits :: "nat \<Rightarrow> string" where
  "nat_digits k = (if k < 10 then [digit_char k] else nat_digits (k div 10) @ [digit_char (k mod 10)])"

declare nat_digits.simps [simp del]

definition as_string :: "32 word \<Rightarrow> string" where
  "as_string w = (if sint w < 0 then CHR ''-'' # nat_digits (nat (- sint w)) else nat_digits (nat (sint w)))"

definition get_unique_values :: "CategoricalAccumulator \<Rightarrow> string list" where
  "get_unique_values acc = tf_unique (c_values acc @ map as_string (c_int_values acc))"

text \<open>
  An accumulator fed a sequence of batches; the first failing update ends the pass, as
  the exception does.
\<close>

fun categorical_feed :: "CategoricalAccumulator \<Rightarrow> Tensor list \<Rightarrow> error + CategoricalAccumulator" where
  "categorical_feed acc [] = Inr acc"
| "categorical_feed acc (b # bs) =
     (case CategoricalAccumulator_update acc b of Inl e \<Rightarrow> Inl e | Inr acc' \<Rightarrow> categorical_feed acc' bs)"

subsection \<open>TextAccumulator\<close>

text \<open>
  A \<^verbatim>\<open>tf.string\<close> is a byte string. The class \<^verbatim>\<open>\s\<close> of the regular
  expression library is tab, newline, form feed, carriage return and space;
  \<^verbatim>\<open>tf.strings.split\<close> without a separator splits at the bytes C's
  \<^verbatim>\<open>isspace\<close> accepts, which adds the vertical tab.
\<close>

definition re_space :: "char \<Rightarrow> bool" where
  "re_space c = (c \<in> set [CHR 0x09, CHR 0x0A, CHR 0x0C, CHR 0x0D, CHR 0x20])"

definition c_isspace :: "char \<Rightarrow> bool" where
  "c_isspace c = (c \<in> set [CHR 0x09, CHR 0x0A, CHR 0x0B, CHR 0x0C, CHR 0x0D, CHR 0x20])"

text \<open>\<^verbatim>\<open>tf.strings.regex_replace(s, r"\s+", " ")\<close>: every maximal run becomes one space.\<close>

function regex_replace_ws :: "string \<Rightarrow> string" where
  "regex_replace_ws [] = []"
| "regex_replace_ws (c # cs) =
     (if re_space c then CHR 0x20 # regex_replace_ws (dropWhile re_space cs)
      else c # regex_replace_ws cs)"
  by pat_completeness auto
termination
  by (relation "measure length") (auto simp: less_Suc_eq_le length_dropWhile_le)

text \<open>\<^verbatim>\<open>tf.strings.split(s)\<close>: the maximal runs of bytes that are not whitespace.\<close>

function strings_split :: "string \<Rightarrow> string list" where
  "strings_split [] = []"
| "strings_split (c # cs) =
     (if c_isspace c then strings_split cs
      else (c # takeWhile (\<lambda>d. \<not> c_isspace d) cs) # strings_split (dropWhile (\<lambda>d. \<not> c_isspace d) cs))"
  by pat_completeness auto
termination
  by (relation "measure length") (auto simp: less_Suc_eq_le length_dropWhile_le)

text \<open>\<^verbatim>\<open>tf.strings.lower\<close> with its default encoding maps the bytes A to Z only.\<close>

definition lower_char :: "char \<Rightarrow> char" where
  "lower_char c = (let k = (of_char c :: nat) in if 65 \<le> k \<and> k \<le> 90 then char_of (k + 32) else c)"

definition strings_lower :: "string \<Rightarrow> string" where
  "strings_lower s = map lower_char s"

record TextAccumulator =
  t_words :: "string list"

definition TextAccumulator_init :: TextAccumulator where
  "TextAccumulator_init = \<lparr>t_words = []\<rparr>"

definition TextAccumulator_update :: "TextAccumulator \<Rightarrow> Tensor \<Rightarrow> error + TextAccumulator" where
  "TextAccumulator_update acc new_texts =
     (case new_texts of
        StringTensor texts \<Rightarrow>
          (let replaced = map regex_replace_ws texts;
               split_words = concat (map strings_split replaced);
               lowered = map strings_lower split_words
           in Inr (acc\<lparr>t_words := tf_unique (t_words acc @ lowered)\<rparr>))
      | _ \<Rightarrow> Inl ValueError)"

definition get_unique_words :: "TextAccumulator \<Rightarrow> string list" where
  "get_unique_words acc = t_words acc"

fun text_feed :: "TextAccumulator \<Rightarrow> Tensor list \<Rightarrow> error + TextAccumulator" where
  "text_feed acc [] = Inr acc"
| "text_feed acc (b # bs) =
     (case TextAccumulator_update acc b of Inl e \<Rightarrow> Inl e | Inr acc' \<Rightarrow> text_feed acc' bs)"

text \<open>
  The tokens of a text as the specification words them: the text is cut at every
  whitespace byte, the empty pieces between adjacent separators are dropped, and every
  remaining piece is lowercased.
\<close>

fun spec_fields :: "string \<Rightarrow> string list" where
  "spec_fields [] = [[]]"
| "spec_fields (c # cs) =
     (if c_isspace c then [] # spec_fields cs
      else (case spec_fields cs of [] \<Rightarrow> [[c]] | t # ts \<Rightarrow> (c # t) # ts))"

definition spec_tokens :: "string \<Rightarrow> string list" where
  "spec_tokens s = map strings_lower (filter (\<lambda>t. t \<noteq> []) (spec_fields s))"

subsection \<open>DateAccumulator\<close>

record DateAccumulator =
  year_accumulator :: WelfordAccumulator
  month_sin_accumulator :: WelfordAccumulator
  month_cos_accumulator :: WelfordAccumulator
  day_of_week_sin_accumulator :: WelfordAccumulator
  day_of_week_cos_accumulator :: WelfordAccumulator

definition DateAccumulator_init :: DateAccumulator where
  "DateAccumulator_init =
     \<lparr>year_accumulator = WelfordAccumulator_init,
      month_sin_accumulator = WelfordAccumulator_init,
      month_cos_accumulator = WelfordAccumulator_init,
      day_of_week_sin_accumulator = WelfordAccumulator_init,
      day_of_week_cos_accumulator = WelfordAccumulator_init\<rparr>"

text \<open>A row of \<^verbatim>\<open>dates\<close> is \<^verbatim>\<open>[year, month, day_of_week]\<close>.\<close>

definition DateAccumulator_update :: "DateAccumulator \<Rightarrow> (real \<times> real \<times> real) list \<Rightarrow> DateAccumulator" where
  "DateAccumulator_update acc dates =
     (let year = map (\<lambda>(y, m, d). y) dates;
          month = map (\<lambda>(y, m, d). m) dates;
          day_of_week = map (\<lambda>(y, m, d). d) dates;
          month_sin = map (\<lambda>m. sin (2 * pi * m / 12)) month;
          month_cos = map (\<lambda>m. cos (2 * pi * m / 12)) month;
          day_of_week_sin = map (\<lambda>d. sin (2 * pi * d / 7)) day_of_week;
          day_of_week_cos = map (\<lambda>d. cos (2 * pi * d / 7)) day_of_week
      in acc\<lparr>year_accumulator := WelfordAccumulator_update (year_accumulator acc) year,
             month_sin_accumulator := WelfordAccumulator_update (month_sin_accumulator acc) month_sin,
             month_cos_accumulator := WelfordAccumulator_update (month_cos_accumulator acc) month_cos,
             day_of_week_sin_accumulator :=
               WelfordAccumulator_update (day_of_week_sin_accumulator acc) day_of_week_sin,
             day_of_week_cos_accumulator :=
               WelfordAccumulator_update (day_of_week_cos_accumulator acc) day_of_week_cos\<rparr>)"

definition date_feed :: "DateAccumulator \<Rightarrow> (real \<times> real \<times> real) list list \<Rightarrow> DateAccumulator" where
  "date_feed acc batches = foldl DateAccumulator_update acc batches"

subsection \<open>Python values and dictionaries\<close>

text \<open>
  The values a report holds. \<open>NpFloat\<close> and \<open>NpInt\<close> are numpy scalars, \<open>PyBytes\<close> a
  \<^verbatim>\<open>bytes\<close> object, \<open>TfDType\<close> a \<^verbatim>\<open>tf.dtypes.DType\<close>. A \<^verbatim>\<open>str\<close> is
  kept as the bytes of its UTF-8 encoding. A dictionary is an association list in
  insertion order, with one entry per key.
\<close>

datatype pyobj =
    PyInt int
  | PyFloat real
  | PyStr string
  | PyBytes string
  | PyList "pyobj list"
  | PyDict "(string \<times> pyobj) list"
  | NpInt int
  | NpFloat real
  | NpArray "real list"
  | TfDType DType

text \<open>\<^verbatim>\<open>d.get(k, default)\<close>, \<^verbatim>\<open>d[k] = v\<close> and \<^verbatim>\<open>d[k]\<close>.\<close>

definition dict_get :: "(string \<times> 'v) list \<Rightarrow> string \<Rightarrow> 'v \<Rightarrow> 'v" where
  "dict_get d k dflt = (case map_of d k of None \<Rightarrow> dflt | Some v \<Rightarrow> v)"

fun dict_set :: "(string \<times> 'v) list \<Rightarrow> string \<Rightarrow> 'v \<Rightarrow> (string \<times> 'v) list" where
  "dict_set [] k v = [(k, v)]"
| "dict_set (p # ps) k v = (if fst p = k then (k, v) # ps else p # dict_set ps k v)"

definition dict_lookup :: "(string \<times> 'v) list \<Rightarrow> string \<Rightarrow> error + 'v" where
  "dict_lookup d k = (case map_of d k of None \<Rightarrow> Inl KeyError | Some v \<Rightarrow> Inr v)"

text \<open>A list comprehension whose body can raise.\<close>

fun map_err :: "('a \<Rightarrow> error + 'b) \<Rightarrow> 'a list \<Rightarrow> error + 'b list" where
  "map_err f [] = Inr []"
| "map_err f (x # xs) =
     (case f x of Inl e \<Rightarrow> Inl e
      | Inr y \<Rightarrow> (case map_err f xs of Inl e \<Rightarrow> Inl e | Inr ys \<Rightarrow> Inr (y # ys)))"

subsection \<open>Builtins used by the finalizer\<close>

text \<open>
  \<^verbatim>\<open>int(b)\<close> on a \<^verbatim>\<open>bytes\<close> object: surrounding whitespace is dropped, one sign is
  allowed, then decimal digits, where a single underscore may stand between two digits.
  Anything else raises \<^verbatim>\<open>ValueError\<close>.
\<close>

definition is_digit :: "char \<Rightarrow> bool" where
  "is_digit c = (let k = (of_char c :: nat) in 48 \<le> k \<and> k \<le> 57)"

definition digit_val :: "char \<Rightarrow> nat" where
  "digit_val c = of_char c - 48"

fun parse_digits :: "nat \<Rightarrow> string \<Rightarrow> nat option" where
  "parse_digits a [] = Some a"
| "parse_digits a [c] = (if is_digit c then Some (10 * a + digit_val c) else None)"
| "parse_digits a (c # d # ds) =
     (if is_digit c then parse_digits (10 * a + digit_val c) (d # ds)
      else if c = CHR ''_'' \<and> is_digit d then parse_digits (10 * a + digit_val d) ds
      else None)"

definition py_strip :: "string \<Rightarrow> string" where
  "py_strip s = rev (dropWhile c_isspace (rev (dropWhile c_isspace s)))"

definition py_int :: "string \<Rightarrow> error + int" where
  "py_int b =
     (let s = py_strip b;
          neg = (case s of [] \<Rightarrow> False | c # _ \<Rightarrow> c = CHR ''-'');
          body = (case s of [] \<Rightarrow> [] | c # cs \<Rightarrow> if c = CHR ''-'' \<or> c = CHR ''+'' then cs else s)
      in case body of
           [] \<Rightarrow> Inl ValueError
         | c # cs \<Rightarrow>
             if is_digit c
             then (case parse_digits (digit_val c) cs of
                     None \<Rightarrow> Inl ValueError
                   | Some k \<Rightarrow> Inr (if neg then - int k else int k))
             else Inl ValueError)"

text \<open>
  \<^verbatim>\<open>b.decode("utf-8")\<close>: the bytes are kept when they are well-formed UTF-8, and
  \<^verbatim>\<open>UnicodeDecodeError\<close> is raised otherwise.
\<close>

definition utf8_width :: "nat \<Rightarrow> nat" where
  "utf8_width b =
     (if b < 128 then 1 else if 194 \<le> b \<and> b \<le> 223 then 2
      else if 224 \<le> b \<and> b \<le> 239 then 3 else if 240 \<le> b \<and> b \<le> 244 then 4 else 0)"

definition utf8_cont :: "nat \<Rightarrow> bool" where
  "utf8_cont b = (128 \<le> b \<and> b \<le> 191)"

definition utf8_second :: "nat \<Rightarrow> nat \<Rightarrow> bool" where
  "utf8_second b c =
     (if b = 224 then 160 \<le> c \<and> c \<le> 191
      else if b = 237 then 128 \<le> c \<and> c \<le> 159
      else if b = 240 then 144 \<le> c \<and> c \<le> 191
      else if b = 244 then 128 \<le> c \<and> c \<le> 143
      else utf8_cont c)"

definition utf8_tail_ok :: "nat \<Rightarrow> nat list \<Rightarrow> bool" where
  "utf8_tail_ok b cs =
     (length cs = utf8_width b - 1 \<and>
      (case cs of [] \<Rightarrow> True | c # ds \<Rightarrow> utf8_second b c \<and> list_all utf8_cont ds))"

function utf8_valid :: "nat list \<Rightarrow> bool" where
  "utf8_valid [] = True"
| "utf8_valid (b # bs) =
     (if utf8_width b = 0 \<or> \<not> utf8_tail_ok b (take (utf8_width b - 1) bs) then False
      else utf8_valid (drop (utf8_width b - 1) bs))"
  by pat_completeness auto
termination
  by (relation "measure length") auto

definition py_decode :: "string \<Rightarrow> error + string" where
  "py_decode b = (if utf8_valid (map of_char b) then Inr b else Inl UnicodeDecodeError)"

text \<open>
  \<^verbatim>\<open>str(b)\<close> on a \<^verbatim>\<open>bytes\<close> object is its \<^verbatim>\<open>repr\<close>: the letter b, a quote,
  the escaped bytes, the quote. The quote is the apostrophe (byte 39) unless the bytes hold
  an apostrophe and no double quote (byte 34); byte 92 is the backslash.
\<close>

definition hex_digit :: "nat \<Rightarrow> char" where
  "hex_digit k = (if k < 10 then char_of (48 + k) else char_of (87 + k))"

definition bytes_escape :: "char \<Rightarrow> char \<Rightarrow> string" where
  "bytes_escape q c =
     (let k = (of_char c :: nat) in
      if c = q \<or> k = 92 then [CHR 0x5C, c]
      else if k = 9 then [CHR 0x5C, CHR ''t'']
      else if k = 10 then [CHR 0x5C, CHR ''n'']
      else if k = 13 then [CHR 0x5C, CHR ''r'']
      else if k < 32 \<or> 127 \<le> k then [CHR 0x5C, CHR ''x'', hex_digit (k div 16), hex_digit (k mod 16)]
      else [c])"

definition py_bytes_str :: "string \<Rightarrow> string" where
  "py_bytes_str b =
     (let q = (if CHR 0x27 \<in> set b \<and> CHR 0x22 \<notin> set b then CHR 0x22 else CHR 0x27)
      in CHR ''b'' # q # concat (map (bytes_escape q) b) @ [q])"

subsection \<open>DatasetStatistics: the finalizer\<close>

text \<open>The properties \<^verbatim>\<open>mean\<close> and \<^verbatim>\<open>variance\<close> of a DateAccumulator.\<close>

definition DateAccumulator_mean :: "DateAccumulator \<Rightarrow> (string \<times> pyobj) list" where
  "DateAccumulator_mean acc =
     [(''year'', NpFloat (w_mean (year_accumulator acc))),
      (''month_sin'', NpFloat (w_mean (month_sin_accumulator acc))),
      (''month_cos'', NpFloat (w_mean (month_cos_accumulator acc))),
      (''day_of_week_sin'', NpFloat (w_mean (day_of_week_sin_accumulator acc))),
      (''day_of_week_cos'', NpFloat (w_mean (day_of_week_cos_accumulator acc)))]"

definition DateAccumulator_variance :: "DateAccumulator \<Rightarrow> (string \<times> pyobj) list" where
  "DateAccumulator_variance acc =
     [(''year'', NpFloat (WelfordAccumulator_variance (year_accumulator acc))),
      (''month_sin'', NpFloat (WelfordAccumulator_variance (month_sin_accumulator acc))),
      (''month_cos'', NpFloat (WelfordAccumulator_variance (month_cos_accumulator acc))),
      (''day_of_week_sin'', NpFloat (WelfordAccumulator_variance (day_of_week_sin_accumulator acc))),
      (''day_of_week_cos'', NpFloat (WelfordAccumulator_variance (day_of_week_cos_accumulator acc)))]"

text \<open>
  The engine. A feature is the string that keys \<^verbatim>\<open>features_specs\<close>; of a feature
  specification only its \<^verbatim>\<open>dtype\<close> is read, so \<open>features_specs\<close> maps a feature to
  that dtype.
\<close>

record DatasetStatistics =
  numeric_features :: "string list"
  categorical_features :: "string list"
  text_features :: "string list"
  date_features :: "string list"
  features_specs :: "(string \<times> DType) list"
  overwrite_stats :: bool
  numeric_stats :: "(string \<times> WelfordAccumulator) list"
  categorical_stats :: "(string \<times> CategoricalAccumulator) list"
  text_stats :: "(string \<times> TextAccumulator) list"
  date_stats :: "(string \<times> DateAccumulator) list"

text \<open>
  \<^verbatim>\<open>__init__\<close>: one fresh accumulator for every declared feature, built by the four
  dictionary comprehensions.
\<close>

definition fresh_stats :: "'a \<Rightarrow> string list \<Rightarrow> (string \<times> 'a) list" where
  "fresh_stats fresh features = foldl (\<lambda>d col. dict_set d col fresh) [] features"

definition DatasetStatistics_init ::
    "(string \<times> DType) list \<Rightarrow> string list \<Rightarrow> string list \<Rightarrow> string list \<Rightarrow> string list \<Rightarrow> bool
      \<Rightarrow> DatasetStatistics" where
  "DatasetStatistics_init specs numeric categorical texts dates overwrite =
     \<lparr>numeric_features = numeric,
      categorical_features = categorical,
      text_features = texts,
      date_features = dates,
      features_specs = specs,
      overwrite_stats = overwrite,
      numeric_stats = fresh_stats WelfordAccumulator_init numeric,
      categorical_stats = fresh_stats CategoricalAccumulator_init categorical,
      text_stats = fresh_stats TextAccumulator_init texts,
      date_stats = fresh_stats DateAccumulator_init dates\<rparr>"

text \<open>The body of the loop over \<^verbatim>\<open>numeric_features\<close>.\<close>

definition numeric_final :: "DatasetStatistics \<Rightarrow> string \<Rightarrow> error + pyobj" where
  "numeric_final ds feature =
     (case dict_lookup (numeric_stats ds) feature of
        Inl e \<Rightarrow> Inl e
      | Inr acc \<Rightarrow>
          (case dict_lookup (features_specs ds) feature of
             Inl e \<Rightarrow> Inl e
           | Inr dt \<Rightarrow>
               Inr (PyDict
                 [(''mean'', NpFloat (w_mean acc)),
                  (''count'', NpFloat (WelfordAccumulator_count acc)),
                  (''var'', NpFloat (WelfordAccumulator_variance acc)),
                  (''dtype'', TfDType dt)])))"

text \<open>The body of the loop over \<^verbatim>\<open>categorical_features\<close>.\<close>

definition categorical_final :: "DatasetStatistics \<Rightarrow> string \<Rightarrow> error + pyobj" where
  "categorical_final ds feature =
     (case dict_lookup (features_specs ds) feature of
        Inl e \<Rightarrow> Inl e
      | Inr dt \<Rightarrow>
          (case dict_lookup (categorical_stats ds) feature of
             Inl e \<Rightarrow> Inl e
           | Inr acc \<Rightarrow>
               (case (if dt = DT_int32
                      then (case map_err py_int (get_unique_values acc) of
                              Inl e \<Rightarrow> Inl e
                            | Inr ints \<Rightarrow> Inr (map PyInt (sort ints)))
                      else (case map_err py_decode (get_unique_values acc) of
                              Inl e \<Rightarrow> Inl e
                            | Inr strs \<Rightarrow> Inr (map PyStr strs))) of
                  Inl e \<Rightarrow> Inl e
                | Inr unique_values \<Rightarrow>
                    Inr (PyDict
                      [(''size'', PyInt (int (length unique_values))),
                       (''vocab'', PyList unique_values),
                       (''dtype'', TfDType dt)]))))"

text \<open>The body of the loop over \<^verbatim>\<open>text_features\<close>: the words stay \<^verbatim>\<open>bytes\<close>.\<close>

definition text_final :: "DatasetStatistics \<Rightarrow> string \<Rightarrow> error + pyobj" where
  "text_final ds feature =
     (case dict_lookup (text_stats ds) feature of
        Inl e \<Rightarrow> Inl e
      | Inr acc \<Rightarrow>
          (let unique_words = map PyBytes (get_unique_words acc) in
           case dict_lookup (features_specs ds) feature of
             Inl e \<Rightarrow> Inl e
           | Inr dt \<Rightarrow>
               Inr (PyDict
                 [(''size'', PyInt (int (length unique_words))),
                  (''vocab'', PyList unique_words),
                  (''dtype'', TfDType dt)])))"

text \<open>
  The date record of one feature. Both inner loops run over the keys of the dictionary
  they read; both look up the literal key \<^verbatim>\<open>"feat_name"\<close> with the default 0 and
  both store under \<^verbatim>\<open>f"mean_{feat_name}"\<close>.
\<close>

definition date_record :: "DateAccumulator \<Rightarrow> (string \<times> pyobj) list" where
  "date_record acc =
     (let means_data = DateAccumulator_mean acc;
          r1 = foldl (\<lambda>r feat_name. dict_set r (''mean_'' @ feat_name) (dict_get means_data ''feat_name'' (PyInt 0)))
                 [] (map fst means_data);
          vars_data = DateAccumulator_variance acc;
          r2 = foldl (\<lambda>r feat_name. dict_set r (''mean_'' @ feat_name) (dict_get vars_data ''feat_name'' (PyInt 0)))
                 r1 (map fst vars_data)
      in r2)"

definition date_final :: "DatasetStatistics \<Rightarrow> string \<Rightarrow> error + pyobj" where
  "date_final ds feature =
     (case dict_lookup (date_stats ds) feature of
        Inl e \<Rightarrow> Inl e
      | Inr acc \<Rightarrow> Inr (PyDict (date_record acc)))"

text \<open>A loop \<^verbatim>\<open>for feature in features: d[feature] = body(feature)\<close>.\<close>

fun final_loop :: "(string \<Rightarrow> error + pyobj) \<Rightarrow> string list \<Rightarrow> (string \<times> pyobj) list
    \<Rightarrow> error + (string \<times> pyobj) list" where
  "final_loop body [] d = Inr d"
| "final_loop body (feature # features) d =
     (case body feature of Inl e \<Rightarrow> Inl e | Inr v \<Rightarrow> final_loop body features (dict_set d feature v))"

definition compute_final_statistics :: "DatasetStatistics \<Rightarrow> error + pyobj" where
  "compute_final_statistics ds =
     (case final_loop (numeric_final ds) (numeric_features ds) [] of
        Inl e \<Rightarrow> Inl e
      | Inr num \<Rightarrow>
     (case final_loop (categorical_final ds) (categorical_features ds) [] of
        Inl e \<Rightarrow> Inl e
      | Inr cat \<Rightarrow>
     (case final_loop (text_final ds) (text_features ds) [] of
        Inl e \<Rightarrow> Inl e
      | Inr txt \<Rightarrow>
     (case final_loop (date_final ds) (date_features ds) [] of
        Inl e \<Rightarrow> Inl e
      | Inr dat \<Rightarrow>
          Inr (PyDict
            [(''numeric_stats'', PyDict num),
             (''categorical_stats'', PyDict cat),
             (''text_stats'', PyDict txt),
             (''date_stats'', PyDict dat)])))))"

subsection \<open>Persisting and loading a report\<close>

text \<open>The canonical name of a dtype and \<^verbatim>\<open>tf.dtypes.as_dtype\<close> on such a name.\<close>

fun DType_name :: "DType \<Rightarrow> string" where
  "DType_name DT_string = ''string''"
| "DType_name DT_int32 = ''int32''"
| "DType_name DT_int64 = ''int64''"
| "DType_name DT_float32 = ''float32''"
| "DType_name DT_float64 = ''float64''"
| "DType_name DT_bool = ''bool''"

definition as_dtype :: "pyobj \<Rightarrow> error + DType" where
  "as_dtype v =
     (case v of
        TfDType d \<Rightarrow> Inr d
      | PyStr s \<Rightarrow>
          (case map_of (map (\<lambda>d. (DType_name d, d))
                  [DT_string, DT_int32, DT_int64, DT_float32, DT_float64, DT_bool]) s of
             None \<Rightarrow> Inl TypeError
           | Some d \<Rightarrow> Inr d)
      | _ \<Rightarrow> Inl TypeError)"

text \<open>
  \<^verbatim>\<open>_custom_serializer\<close>, the \<^verbatim>\<open>default\<close> hook of \<^verbatim>\<open>json.dump\<close>: it is
  called on every object the encoder does not know, and its result is encoded in place of
  the object.
\<close>

definition custom_serializer :: "pyobj \<Rightarrow> error + pyobj" where
  "custom_serializer obj =
     (case obj of
        TfDType d \<Rightarrow> Inr (PyStr (DType_name d))
      | NpInt i \<Rightarrow> Inr (PyInt i)
      | NpFloat r \<Rightarrow> Inr (PyFloat r)
      | PyBytes b \<Rightarrow> Inr (PyStr (py_bytes_str b))
      | NpArray xs \<Rightarrow> Inr (PyList (map PyFloat xs))
      | _ \<Rightarrow> Inl TypeError)"

text \<open>
  The content of the report file. Writing the text of a document and parsing it again is
  taken to give the document back; what the encoder makes of each Python value is modelled.
\<close>

datatype json =
    JInt int
  | JFloat real
  | JStr string
  | JArr "json list"
  | JObj "(string \<times> json) list"

text \<open>A bound on the encoder's recursion: an object the hook replaces weighs more than its replacement.\<close>

fun weight :: "pyobj \<Rightarrow> nat"
  and weight_list :: "pyobj list \<Rightarrow> nat"
  and weight_items :: "(string \<times> pyobj) list \<Rightarrow> nat" where
  "weight (PyInt _) = 1"
| "weight (PyFloat _) = 1"
| "weight (PyStr _) = 1"
| "weight (PyBytes _) = 2"
| "weight (PyList xs) = Suc (weight_list xs)"
| "weight (PyDict kvs) = Suc (weight_items kvs)"
| "weight (NpInt _) = 2"
| "weight (NpFloat _) = 2"
| "weight (NpArray xs) = 2 + 2 * length xs"
| "weight (TfDType _) = 2"
| "weight_list [] = 0"
| "weight_list (x # xs) = Suc (weight x + weight_list xs)"
| "weight_items [] = 0"
| "weight_items (kv # kvs) = Suc (weight (snd kv) + weight_items kvs)"

function json_encode :: "pyobj \<Rightarrow> error + json"
  and json_encode_list :: "pyobj list \<Rightarrow> error + json list"
  and json_encode_items :: "(string \<times> pyobj) list \<Rightarrow> error + (string \<times> json) list" where
  "json_encode (PyInt i) = Inr (JInt i)"
| "json_encode (PyFloat r) = Inr (JFloat r)"
| "json_encode (PyStr s) = Inr (JStr s)"
| "json_encode (PyList xs) = (case json_encode_list xs of Inl e \<Rightarrow> Inl e | Inr js \<Rightarrow> Inr (JArr js))"
| "json_encode (PyDict kvs) = (case json_encode_items kvs of Inl e \<Rightarrow> Inl e | Inr js \<Rightarrow> Inr (JObj js))"
| "json_encode (PyBytes b) =
     (case custom_serializer (PyBytes b) of Inl e \<Rightarrow> Inl e | Inr v \<Rightarrow> json_encode v)"
| "json_encode (NpInt i) =
     (case custom_serializer (NpInt i) of Inl e \<Rightarrow> Inl e | Inr v \<Rightarrow> json_encode v)"
| "json_encode (NpFloat r) =
     (case custom_serializer (NpFloat r) of Inl e \<Rightarrow> Inl e | Inr v \<Rightarrow> json_encode v)"
| "json_encode (NpArray xs) =
     (case custom_serializer (NpArray xs) of Inl e \<Rightarrow> Inl e | Inr v \<Rightarrow> json_encode v)"
| "json_encode (TfDType d) =
     (case custom_serializer (TfDType d) of Inl e \<Rightarrow> Inl e | Inr v \<Rightarrow> json_encode v)"
| "json_encode_list [] = Inr []"
| "json_encode_list (x # xs) =
     (case json_encode x of Inl e \<Rightarrow> Inl e
      | Inr j \<Rightarrow> (case json_encode_list xs of Inl e \<Rightarrow> Inl e | Inr js \<Rightarrow> Inr (j # js)))"
| "json_encode_items [] = Inr []"
| "json_encode_items (kv # kvs) =
     (case json_encode (snd kv) of Inl e \<Rightarrow> Inl e
      | Inr j \<Rightarrow> (case json_encode_items kvs of Inl e \<Rightarrow> Inl e | Inr js \<Rightarrow> Inr ((fst kv, j) # js)))"
  by pat_completeness auto
termination
proof -
  have W: "weight_list (map PyFloat xs) = 2 * length xs" for xs
    by (induction xs) simp_all
  show ?thesis
    by (relation "measure (\<lambda>x. case x of Inl v \<Rightarrow> weight v
          | Inr (Inl xs) \<Rightarrow> weight_list xs | Inr (Inr kvs) \<Rightarrow> weight_items kvs)")
       (auto simp: custom_serializer_def W)
qed

text \<open>\<^verbatim>\<open>json.load\<close>: every document value becomes the plain Python value of its kind.\<close>

fun json_decode :: "json \<Rightarrow> pyobj"
  and json_decode_list :: "json list \<Rightarrow> pyobj list"
  and json_decode_items :: "(string \<times> json) list \<Rightarrow> (string \<times> pyobj) list" where
  "json_decode (JInt i) = PyInt i"
| "json_decode (JFloat r) = PyFloat r"
| "json_decode (JStr s) = PyStr s"
| "json_decode (JArr js) = PyList (json_decode_list js)"
| "json_decode (JObj kvs) = PyDict (json_decode_items kvs)"
| "json_decode_list [] = []"
| "json_decode_list (j # js) = json_decode j # json_decode_list js"
| "json_decode_items [] = []"
| "json_decode_items (kv # kvs) = (fst kv, json_decode (snd kv)) # json_decode_items kvs"

text \<open>\<^verbatim>\<open>_save_stats\<close>: the document written to \<^verbatim>\<open>features_stats_path\<close>.\<close>

definition save_stats :: "pyobj \<Rightarrow> error + json" where
  "save_stats features_stats = json_encode features_stats"

text \<open>
  The dtype loop of \<^verbatim>\<open>_load_stats\<close>. \<^verbatim>\<open>"dtype" in feature_stats\<close> is a key test
  on a dictionary, a membership test on a list and a substring test on a string; the
  assignment that follows works on a dictionary only.
\<close>

fun contains :: "string \<Rightarrow> string \<Rightarrow> bool" where
  "contains p [] = (p = [])"
| "contains p (c # cs) = (take (length p) (c # cs) = p \<or> contains p cs)"

definition restore_dtype :: "pyobj \<Rightarrow> error + pyobj" where
  "restore_dtype feature_stats =
     (case feature_stats of
        PyDict d \<Rightarrow>
          (case map_of d ''dtype'' of
             None \<Rightarrow> Inr (PyDict d)
           | Some v \<Rightarrow>
               (case as_dtype v of
                  Inl e \<Rightarrow> Inl e
                | Inr dt \<Rightarrow> Inr (PyDict (dict_set d ''dtype'' (TfDType dt)))))
      | PyList xs \<Rightarrow> if PyStr ''dtype'' \<in> set xs then Inl TypeError else Inr (PyList xs)
      | PyStr s \<Rightarrow> if contains ''dtype'' s then Inl TypeError else Inr (PyStr s)
      | _ \<Rightarrow> Inl TypeError)"

fun restore_items :: "(string \<times> pyobj) list \<Rightarrow> error + (string \<times> pyobj) list" where
  "restore_items [] = Inr []"
| "restore_items (kv # kvs) =
     (case restore_dtype (snd kv) of Inl e \<Rightarrow> Inl e
      | Inr v \<Rightarrow> (case restore_items kvs of Inl e \<Rightarrow> Inl e | Inr r \<Rightarrow> Inr ((fst kv, v) # r)))"

definition restore_stats_type :: "pyobj \<Rightarrow> error + pyobj" where
  "restore_stats_type stats_type =
     (case stats_type of
        PyDict d \<Rightarrow> (case restore_items d of Inl e \<Rightarrow> Inl e | Inr r \<Rightarrow> Inr (PyDict r))
      | _ \<Rightarrow> Inl AttributeError)"

fun restore_all :: "(string \<times> pyobj) list \<Rightarrow> error + (string \<times> pyobj) list" where
  "restore_all [] = Inr []"
| "restore_all (kv # kvs) =
     (case restore_stats_type (snd kv) of Inl e \<Rightarrow> Inl e
      | Inr v \<Rightarrow> (case restore_all kvs of Inl e \<Rightarrow> Inl e | Inr r \<Rightarrow> Inr ((fst kv, v) # r)))"

text \<open>
  \<^verbatim>\<open>_load_stats\<close>: \<open>file\<close> is the document at \<^verbatim>\<open>features_stats_path\<close>, if there
  is a file.
\<close>

definition load_stats :: "bool \<Rightarrow> json option \<Rightarrow> error + pyobj" where
  "load_stats overwrite file =
     (if overwrite then Inr (PyDict [])
      else (case file of
              None \<Rightarrow> Inr (PyDict [])
            | Some doc \<Rightarrow>
                (case json_decode doc of
                   PyDict d \<Rightarrow> (case restore_all d of Inl e \<Rightarrow> Inl e | Inr r \<Rightarrow> Inr (PyDict r))
                 | _ \<Rightarrow> Inl AttributeError)))"

section \<open>Properties of the WelfordAccumulator\<close>

lemma welford_update_Nil: "WelfordAccumulator_update s [] = s"
  by (simp add: WelfordAccumulator_update_def)

lemma welford_update_n: "w_n (WelfordAccumulator_update s xs) = w_n s + real (length xs)"
  by (simp add: WelfordAccumulator_update_def Let_def)

lemma sum_list_delta: "sum_list (map (\<lambda>v. v - (m::real)) xs) = sum_list xs - real (length xs) * m"
  by (induction xs) (simp_all add: algebra_simps)

lemma sum_list_div_const: "sum_list (map (\<lambda>d. d / (c::real)) ds) = sum_list ds / c"
  by (induction ds) (simp_all add: add_divide_distrib)

lemma welford_update_mean: "w_mean (WelfordAccumulator_update s xs) =
   w_mean s + (sum_list xs - real (length xs) * w_mean s) / (w_n s + real (length xs))"
  by (simp add: WelfordAccumulator_update_def Let_def sum_list_div_const sum_list_delta)

lemma sum_list_delta_prod: "sum_list (map2 (\<lambda>d v. d * (v - c)) (map (\<lambda>v. v - (m::real)) xs) xs)
   = sum_list (map (\<lambda>v. v * v) xs) - (m + c) * sum_list xs + real (length xs) * m * c"
  by (induction xs) (simp_all add: algebra_simps)

lemma welford_update_M2: "w_M2 (WelfordAccumulator_update s xs) =
   w_M2 s + sum_list (map (\<lambda>v. v * v) xs) - (w_mean s + w_mean (WelfordAccumulator_update s xs)) * sum_list xs
     + real (length xs) * w_mean s * w_mean (WelfordAccumulator_update s xs)"
  by (simp add: WelfordAccumulator_update_def Let_def sum_list_delta_prod)

lemma welford_update_var: "w_var (WelfordAccumulator_update s xs) = w_var s"
  by (simp add: WelfordAccumulator_update_def Let_def)

lemma merge_mean_algebra0:
  fixes A N a m Sx Sy :: real
  assumes "A \<noteq> 0" "N \<noteq> 0"
  shows "(m + (Sx - a * m) / A) + (Sy - (N - A) * (m + (Sx - a * m) / A)) / N
       = m + (Sx + Sy - (a + (N - A)) * m) / N"
  using assms by (simp add: field_simps)

lemma merge_mean_algebra:
  fixes n a b m Sx Sy :: real
  assumes "n + a > 0" "b \<ge> 0"
  shows "(m + (Sx - a * m) / (n + a)) + (Sy - b * (m + (Sx - a * m) / (n + a))) / (n + a + b)
       = m + (Sx + Sy - (a + b) * m) / (n + (a + b))"
proof -
  have A: "n + a \<noteq> 0" and N: "n + a + b \<noteq> 0"
    using assms by auto
  show ?thesis
    using merge_mean_algebra0 [OF A N, where a=a and m=m and Sx=Sx and Sy=Sy] by (simp add: add.assoc)
qed

lemma merge_M2_algebra:
  fixes n a b m Sx Sy Qx Qy M m1 m2 :: real
  assumes "n + a > 0" "b \<ge> 0"
    and m1: "m1 = m + (Sx - a * m) / (n + a)"
    and m2: "m2 = m + (Sx + Sy - (a + b) * m) / (n + (a + b))"
  shows "(M + Qx - (m + m1) * Sx + a * m * m1) + Qy - (m1 + m2) * Sy + b * m1 * m2
       = M + (Qx + Qy) - (m + m2) * (Sx + Sy) + (a + b) * m * m2"
proof -
  have A: "n + a \<noteq> 0" and N: "n + (a + b) \<noteq> 0"
    using assms by auto
  have "m1 * (n + a) = n * m + Sx"
    unfolding m1 using A by (simp add: field_simps)
  then have Sx: "Sx = m1 * (n + a) - n * m" by simp
  have "m2 * (n + (a + b)) = n * m + Sx + Sy"
    unfolding m2 using N by (simp add: field_simps)
  then have Sy: "Sy = m2 * (n + (a + b)) - m1 * (n + a)" using Sx by simp
  show ?thesis
    unfolding Sx Sy by (simp add: algebra_simps)
qed


lemma welford_update_append:
  assumes "0 \<le> w_n s"
  shows "WelfordAccumulator_update (WelfordAccumulator_update s xs) ys
       = WelfordAccumulator_update s (xs @ ys)"
proof (cases "xs = []")
  case True
  then show ?thesis by (simp add: welford_update_Nil)
next
  case False
  then have pos: "0 < w_n s + real (length xs)"
    using assms by (simp add: add_nonneg_pos)
  have len: "0 \<le> real (length ys)" by simp
  let ?s1 = "WelfordAccumulator_update s xs"
  let ?m1 = "w_mean s + (sum_list xs - real (length xs) * w_mean s) / (w_n s + real (length xs))"
  let ?m2 = "w_mean s + (sum_list xs + sum_list ys - (real (length xs) + real (length ys)) * w_mean s)
                 / (w_n s + (real (length xs) + real (length ys)))"
  have m1: "w_mean ?s1 = ?m1" by (simp add: welford_update_mean)
  have m2: "w_mean (WelfordAccumulator_update s (xs @ ys)) = ?m2" by (simp add: welford_update_mean)
  have m12: "w_mean (WelfordAccumulator_update ?s1 ys) = ?m2"
    unfolding welford_update_mean [of ?s1] welford_update_n m1 by (rule merge_mean_algebra [OF pos len])
  have M: "w_M2 (WelfordAccumulator_update ?s1 ys) = w_M2 (WelfordAccumulator_update s (xs @ ys))"
    unfolding welford_update_M2 [of ?s1] welford_update_M2 [of s "xs @ ys"] welford_update_M2 [of s xs] m12 m2 m1
    using merge_M2_algebra [OF pos len refl refl, of "w_M2 s" "sum_list (map (\<lambda>v. v * v) xs)" "w_mean s" "sum_list xs"
        "sum_list (map (\<lambda>v. v * v) ys)" "sum_list ys"]
    by simp
  have N: "w_n (WelfordAccumulator_update ?s1 ys) = w_n (WelfordAccumulator_update s (xs @ ys))"
    by (simp add: welford_update_n)
  have V: "w_var (WelfordAccumulator_update ?s1 ys) = w_var (WelfordAccumulator_update s (xs @ ys))"
    by (simp add: welford_update_var)
  show ?thesis
    by (rule WelfordAccumulator.equality) (simp_all add: N V M m12 m2)
qed

lemma welford_feed_concat:
  "0 \<le> w_n s \<Longrightarrow> welford_feed s bs = WelfordAccumulator_update s (concat bs)"
proof (induction bs arbitrary: s)
  case Nil
  then show ?case by (simp add: welford_feed_def welford_update_Nil)
next
  case (Cons b bs)
  have "0 \<le> w_n (WelfordAccumulator_update s b)"
    using Cons.prems by (simp add: welford_update_n)
  then have "welford_feed (WelfordAccumulator_update s b) bs
      = WelfordAccumulator_update (WelfordAccumulator_update s b) (concat bs)"
    by (rule Cons.IH)
  then show ?case
    using Cons.prems by (simp add: welford_feed_def welford_update_append)
qed


lemma welford_feed_n_nonneg: "0 \<le> w_n s \<Longrightarrow> 0 \<le> w_n (welford_feed s bs)"
  by (simp add: welford_feed_concat welford_update_n)


text \<open>
  Claim C2. A fresh accumulator updated with the batch 1, 2, 3 and then with the batch
  4, 5 reports the mean 3, the count 5 and the variance 5/2.
\<close>

theorem welford_scenario_two_batches:
  "w_mean (welford_feed WelfordAccumulator_init [[1, 2, 3], [4, 5]]) = 3
   \<and> WelfordAccumulator_count (welford_feed WelfordAccumulator_init [[1, 2, 3], [4, 5]]) = 5
   \<and> WelfordAccumulator_variance (welford_feed WelfordAccumulator_init [[1, 2, 3], [4, 5]]) = 5 / 2"
  by (simp add: welford_feed_def WelfordAccumulator_init_def WelfordAccumulator_update_def
      WelfordAccumulator_count_def WelfordAccumulator_variance_def Let_def)

text \<open>
  Claim C8. An accumulator that has seen no batch reports the count 0 and the variance 0,
  and an update with the empty batch returns the state it was given, whatever that state
  is: count, mean and sum of squared deviations are unchanged.
\<close>

theorem welford_empty_batches:
  "WelfordAccumulator_count (welford_feed WelfordAccumulator_init []) = 0
   \<and> WelfordAccumulator_variance (welford_feed WelfordAccumulator_init []) = 0
   \<and> WelfordAccumulator_update s [] = s"
  by (simp add: welford_feed_def WelfordAccumulator_init_def WelfordAccumulator_update_def
      WelfordAccumulator_count_def WelfordAccumulator_variance_def)

section \<open>Properties of the vocabulary accumulators\<close>

lemma set_unique_into: "set (unique_into seen xs) = set seen \<union> set xs"
  by (induction xs arbitrary: seen) auto

lemma distinct_unique_into: "distinct seen \<Longrightarrow> distinct (unique_into seen xs)"
  by (induction xs arbitrary: seen) auto

lemma set_tf_unique: "set (tf_unique xs) = set xs"
  by (simp add: tf_unique_def set_unique_into)

lemma distinct_tf_unique: "distinct (tf_unique xs)"
  by (simp add: tf_unique_def distinct_unique_into)

text \<open>
  Claim C5. CategoricalAccumulator.update raises its ValueError exactly when the element
  kind of the batch is neither int32 nor string, and TextAccumulator.update exactly when
  it is not string. On a string batch or an int32 batch the categorical update returns a
  state whose set of that kind is the union of the old set and the batch, the other
  variable unchanged; on a string batch the text update returns a state whose word set is
  the union of the old word set and the lowercased tokens of the batch.
\<close>

theorem update_unsupported_type_iff:
  "(CategoricalAccumulator_update acc t = Inl ValueError
      \<longleftrightarrow> (tensor_dtype t \<noteq> DT_int32 \<and> tensor_dtype t \<noteq> DT_string))
   \<and> (isl (CategoricalAccumulator_update acc t)
      \<longleftrightarrow> (tensor_dtype t \<noteq> DT_int32 \<and> tensor_dtype t \<noteq> DT_string))
   \<and> (TextAccumulator_update tacc t = Inl ValueError \<longleftrightarrow> tensor_dtype t \<noteq> DT_string)
   \<and> (isl (TextAccumulator_update tacc t) \<longleftrightarrow> tensor_dtype t \<noteq> DT_string)
   \<and> (\<exists>acc'. CategoricalAccumulator_update acc (StringTensor xs) = Inr acc'
         \<and> set (c_values acc') = set (c_values acc) \<union> set xs
         \<and> c_int_values acc' = c_int_values acc)
   \<and> (\<exists>acc'. CategoricalAccumulator_update acc (Int32Tensor ws) = Inr acc'
         \<and> set (c_int_values acc') = set (c_int_values acc) \<union> set ws
         \<and> c_values acc' = c_values acc)
   \<and> (\<exists>tacc'. TextAccumulator_update tacc (StringTensor xs) = Inr tacc'
         \<and> set (t_words tacc') = set (t_words tacc)
              \<union> set (concat (map (\<lambda>x. map strings_lower (strings_split (regex_replace_ws x))) xs)))"
proof -
  have cat: "CategoricalAccumulator_update acc t = Inl ValueError
      \<longleftrightarrow> (tensor_dtype t \<noteq> DT_int32 \<and> tensor_dtype t \<noteq> DT_string)"
    by (cases t) (simp_all add: CategoricalAccumulator_update_def)
  have cat': "isl (CategoricalAccumulator_update acc t)
      \<longleftrightarrow> (tensor_dtype t \<noteq> DT_int32 \<and> tensor_dtype t \<noteq> DT_string)"
    by (cases t) (simp_all add: CategoricalAccumulator_update_def)
  have tu: "TextAccumulator_update tacc t = Inl ValueError \<longleftrightarrow> tensor_dtype t \<noteq> DT_string"
    by (cases t) (simp_all add: TextAccumulator_update_def Let_def)
  have tu': "isl (TextAccumulator_update tacc t) \<longleftrightarrow> tensor_dtype t \<noteq> DT_string"
    by (cases t) (simp_all add: TextAccumulator_update_def Let_def)
  have s: "\<exists>acc'. CategoricalAccumulator_update acc (StringTensor xs) = Inr acc'
         \<and> set (c_values acc') = set (c_values acc) \<union> set xs
         \<and> c_int_values acc' = c_int_values acc"
    by (simp add: CategoricalAccumulator_update_def set_tf_unique)
  have i: "\<exists>acc'. CategoricalAccumulator_update acc (Int32Tensor ws) = Inr acc'
         \<and> set (c_int_values acc') = set (c_int_values acc) \<union> set ws
         \<and> c_values acc' = c_values acc"
    by (simp add: CategoricalAccumulator_update_def set_tf_unique)
  have w: "\<exists>tacc'. TextAccumulator_update tacc (StringTensor xs) = Inr tacc'
         \<and> set (t_words tacc') = set (t_words tacc)
              \<union> set (concat (map (\<lambda>x. map strings_lower (strings_split (regex_replace_ws x))) xs))"
    by (simp add: TextAccumulator_update_def Let_def set_tf_unique map_concat comp_def)
  from cat cat' tu tu' s i w show ?thesis by blast
qed

text \<open>
  Claim C9. No update shrinks an accumulator: the count of a WelfordAccumulator after an
  update is at least the count before it, and every value (every word) a
  CategoricalAccumulator (a TextAccumulator) holds before a successful update it holds
  after it. A failing update raises before it assigns, so it leaves the state as it was.
\<close>

theorem accumulators_grow_monotonically:
  "w_n s \<le> w_n (WelfordAccumulator_update s batch)
   \<and> WelfordAccumulator_count s \<le> WelfordAccumulator_count (WelfordAccumulator_update s batch)
   \<and> (CategoricalAccumulator_update acc t = Inr acc'
        \<longrightarrow> set (c_values acc) \<subseteq> set (c_values acc')
          \<and> set (c_int_values acc) \<subseteq> set (c_int_values acc')
          \<and> set (get_unique_values acc) \<subseteq> set (get_unique_values acc'))
   \<and> (TextAccumulator_update tacc t = Inr tacc'
        \<longrightarrow> set (get_unique_words tacc) \<subseteq> set (get_unique_words tacc'))"
proof -
  have n: "w_n s \<le> w_n (WelfordAccumulator_update s batch)"
    by (simp add: WelfordAccumulator_update_def Let_def)
  have c: "set (c_values acc) \<subseteq> set (c_values acc')
          \<and> set (c_int_values acc) \<subseteq> set (c_int_values acc')
          \<and> set (get_unique_values acc) \<subseteq> set (get_unique_values acc')"
    if "CategoricalAccumulator_update acc t = Inr acc'"
    using that
    by (cases t) (auto simp: CategoricalAccumulator_update_def get_unique_values_def set_tf_unique)
  have w: "set (get_unique_words tacc) \<subseteq> set (get_unique_words tacc')"
    if "TextAccumulator_update tacc t = Inr tacc'"
    using that
    by (cases t) (auto simp: TextAccumulator_update_def get_unique_words_def Let_def set_tf_unique)
  from n c w show ?thesis
    by (simp add: WelfordAccumulator_count_def)
qed

theorem accumulators_grow_monotonically_witness:
  "CategoricalAccumulator_update \<lparr>c_values = [''a''], c_int_values = [7]\<rparr> (Int32Tensor [3, 7])
       = Inr \<lparr>c_values = [''a''], c_int_values = [7, 3]\<rparr>
   \<and> TextAccumulator_update \<lparr>t_words = [''fox'']\<rparr> (StringTensor [''The fox''])
       = Inr \<lparr>t_words = [''fox'', ''the'']\<rparr>
   \<and> w_n WelfordAccumulator_init \<le> w_n (WelfordAccumulator_update WelfordAccumulator_init [1, 2])
   \<and> set (c_int_values \<lparr>c_values = [''a''], c_int_values = [7]\<rparr>)
        \<subseteq> set (c_int_values \<lparr>c_values = [''a''], c_int_values = [7, 3]\<rparr>)
   \<and> set (get_unique_words \<lparr>t_words = [''fox'']\<rparr>) \<subseteq> set (get_unique_words \<lparr>t_words = [''fox'', ''the'']\<rparr>)"
proof -
  have c: "CategoricalAccumulator_update \<lparr>c_values = [''a''], c_int_values = [7]\<rparr> (Int32Tensor [3, 7])
       = Inr \<lparr>c_values = [''a''], c_int_values = [7, 3]\<rparr>"
    by (simp add: CategoricalAccumulator_update_def tf_unique_def)
  have w: "TextAccumulator_update \<lparr>t_words = [''fox'']\<rparr> (StringTensor [''The fox''])
       = Inr \<lparr>t_words = [''fox'', ''the'']\<rparr>"
    by code_simp
  show ?thesis
    using c w
      accumulators_grow_monotonically [where s = WelfordAccumulator_init and batch = "[1, 2]"
        and acc = "\<lparr>c_values = [''a''], c_int_values = [7]\<rparr>" and t = "Int32Tensor [3, 7]"
        and acc' = "\<lparr>c_values = [''a''], c_int_values = [7, 3]\<rparr>"]
      accumulators_grow_monotonically [where tacc = "\<lparr>t_words = [''fox'']\<rparr>"
        and t = "StringTensor [''The fox'']" and tacc' = "\<lparr>t_words = [''fox'', ''the'']\<rparr>"]
    by simp
qed

section \<open>The date record of the finalizer\<close>

lemma date_record_eq:
  "date_record acc =
     [(''mean_year'', PyInt 0), (''mean_month_sin'', PyInt 0), (''mean_month_cos'', PyInt 0),
      (''mean_day_of_week_sin'', PyInt 0), (''mean_day_of_week_cos'', PyInt 0)]"
  by (simp add: date_record_def DateAccumulator_mean_def DateAccumulator_variance_def dict_get_def)

text \<open>
  Claim C10. Whatever a DateAccumulator has accumulated, the date record the finalizer
  builds from it has exactly the five keys mean_year, mean_month_sin, mean_month_cos,
  mean_day_of_week_sin and mean_day_of_week_cos, each with the value 0: no key var_... is
  written, and the record after any sequence of batches is the record of a fresh
  accumulator.
\<close>

theorem date_record_always_zero:
  "date_record acc =
     [(''mean_year'', PyInt 0), (''mean_month_sin'', PyInt 0), (''mean_month_cos'', PyInt 0),
      (''mean_day_of_week_sin'', PyInt 0), (''mean_day_of_week_cos'', PyInt 0)]
   \<and> date_record (date_feed DateAccumulator_init batches) = date_record DateAccumulator_init
   \<and> (dict_lookup (date_stats ds) feature = Inr acc \<longrightarrow>
        date_final ds feature = Inr (PyDict
          [(''mean_year'', PyInt 0), (''mean_month_sin'', PyInt 0), (''mean_month_cos'', PyInt 0),
           (''mean_day_of_week_sin'', PyInt 0), (''mean_day_of_week_cos'', PyInt 0)]))"
  by (simp add: date_record_eq date_final_def)

theorem date_record_always_zero_witness:
  "dict_lookup (date_stats (DatasetStatistics_init [] [] [] [] [''d''] False)) ''d'' = Inr DateAccumulator_init
   \<and> date_final (DatasetStatistics_init [] [] [] [] [''d''] False) ''d'' = Inr (PyDict
          [(''mean_year'', PyInt 0), (''mean_month_sin'', PyInt 0), (''mean_month_cos'', PyInt 0),
           (''mean_day_of_week_sin'', PyInt 0), (''mean_day_of_week_cos'', PyInt 0)])"
proof -
  have h: "dict_lookup (date_stats (DatasetStatistics_init [] [] [] [] [''d''] False)) ''d'' = Inr DateAccumulator_init"
    by (simp add: DatasetStatistics_init_def fresh_stats_def dict_lookup_def)
  show ?thesis
    using h date_record_always_zero [where ds = "DatasetStatistics_init [] [] [] [] [''d''] False"
        and feature = "''d''" and acc = DateAccumulator_init]
    by simp
qed


section \<open>The integer vocabulary of a categorical feature\<close>

lemma unique_into_distinct:
  "distinct xs \<Longrightarrow> set seen \<inter> set xs = {} \<Longrightarrow> unique_into seen xs = seen @ xs"
  by (induction xs arbitrary: seen) auto

lemma tf_unique_distinct: "distinct xs \<Longrightarrow> tf_unique xs = xs"
  by (simp add: tf_unique_def unique_into_distinct)

lemma is_digit_digit_char: "d < 10 \<Longrightarrow> is_digit (digit_char d)"
  by (simp add: is_digit_def digit_char_def)

lemma digit_val_digit_char: "d < 10 \<Longrightarrow> digit_val (digit_char d) = d"
  by (simp add: digit_val_def digit_char_def)

lemma nat_digits_all_digits: "list_all is_digit (nat_digits k)"
  by (induction k rule: nat_digits.induct) (subst nat_digits.simps, simp add: is_digit_digit_char)

lemma nat_digits_not_Nil: "nat_digits k \<noteq> []"
  by (subst nat_digits.simps) simp

lemma parse_digits_all_digits:
  "list_all is_digit ds \<Longrightarrow> parse_digits a ds = Some (foldl (\<lambda>a c. 10 * a + digit_val c) a ds)"
  by (induction a ds rule: parse_digits.induct) simp_all

lemma foldl_nat_digits: "foldl (\<lambda>a c. 10 * a + digit_val c) 0 (nat_digits k) = k"
proof (induction k rule: nat_digits.induct)
  case (1 k)
  show ?case
  proof (cases "k < 10")
    case True
    then show ?thesis by (subst nat_digits.simps) (simp add: digit_val_digit_char)
  next
    case False
    with 1 have "foldl (\<lambda>a c. 10 * a + digit_val c) 0 (nat_digits (k div 10)) = k div 10"
      by simp
    with False show ?thesis
      by (subst nat_digits.simps) (simp add: digit_val_digit_char)
  qed
qed

lemma is_digit_not_space: "is_digit c \<Longrightarrow> \<not> c_isspace c"
  by (auto simp: is_digit_def c_isspace_def)

lemma is_digit_not_sign: "is_digit c \<Longrightarrow> c \<noteq> CHR ''-'' \<and> c \<noteq> CHR ''+''"
  by (auto simp: is_digit_def)

lemma py_strip_id:
  assumes "s \<noteq> []" "\<not> c_isspace (hd s)" "\<not> c_isspace (last s)"
  shows "py_strip s = s"
proof -
  from assms have 1: "dropWhile c_isspace s = s"
    by (cases s) simp_all
  from assms have 2: "dropWhile c_isspace (rev s) = rev s"
    by (cases "rev s") (simp_all add: last_rev [symmetric] hd_rev del: last_rev)
  show ?thesis by (simp add: py_strip_def 1 2)
qed

lemma py_int_nat_digits: "py_int (nat_digits k) = Inr (int k)"
proof -
  obtain c cs where s: "nat_digits k = c # cs"
    using nat_digits_not_Nil [of k] by (cases "nat_digits k") auto
  have all: "list_all is_digit (c # cs)"
    using nat_digits_all_digits [of k] by (simp add: s)
  then have c: "is_digit c" and cs: "list_all is_digit cs" by simp_all
  have l: "is_digit (last (c # cs))"
    using all by (metis last_in_set list.distinct(1) list_all_iff)
  have strip: "py_strip (c # cs) = c # cs"
    using c l by (intro py_strip_id) (simp_all add: is_digit_not_space)
  have "parse_digits (digit_val c) cs = Some (foldl (\<lambda>a c. 10 * a + digit_val c) 0 (c # cs))"
    using cs by (simp add: parse_digits_all_digits)
  also have "\<dots> = Some k"
    using foldl_nat_digits [of k] by (simp add: s)
  finally have p: "parse_digits (digit_val c) cs = Some k" .
  show ?thesis
    using c is_digit_not_sign [OF c] by (simp add: py_int_def s strip p)
qed

lemma py_int_minus_nat_digits: "py_int (CHR ''-'' # nat_digits k) = Inr (- int k)"
proof -
  obtain c cs where s: "nat_digits k = c # cs"
    using nat_digits_not_Nil [of k] by (cases "nat_digits k") auto
  have all: "list_all is_digit (c # cs)"
    using nat_digits_all_digits [of k] by (simp add: s)
  then have c: "is_digit c" and cs: "list_all is_digit cs" by simp_all
  have l: "is_digit (last (c # cs))"
    using all by (metis last_in_set list.distinct(1) list_all_iff)
  have m: "\<not> c_isspace CHR ''-''"
    by (simp add: c_isspace_def)
  have e: "\<not> c_isspace (last (CHR ''-'' # c # cs))"
    using is_digit_not_space [OF l] by simp
  have strip: "py_strip (CHR ''-'' # c # cs) = CHR ''-'' # c # cs"
    using m e by (intro py_strip_id) simp_all
  have "parse_digits (digit_val c) cs = Some (foldl (\<lambda>a c. 10 * a + digit_val c) 0 (c # cs))"
    using cs by (simp add: parse_digits_all_digits)
  also have "\<dots> = Some k"
    using foldl_nat_digits [of k] by (simp add: s)
  finally have p: "parse_digits (digit_val c) cs = Some k" .
  show ?thesis
    using c by (simp add: py_int_def s strip p)
qed

lemma py_int_as_string: "py_int (as_string w) = Inr (sint w)"
  by (simp add: as_string_def py_int_nat_digits py_int_minus_nat_digits)

lemma as_string_inj: "as_string v = as_string w \<Longrightarrow> v = w"
proof -
  assume "as_string v = as_string w"
  then have "py_int (as_string v) = py_int (as_string w)" by simp
  then have "sint v = sint w" by (simp add: py_int_as_string)
  then show "v = w" by (rule signed_word_eqI)
qed

lemma map_err_py_int_as_string: "map_err py_int (map as_string ws) = Inr (map sint ws)"
  by (induction ws) (simp_all add: py_int_as_string)

lemma distinct_map_as_string: "distinct ws \<Longrightarrow> distinct (map as_string ws)"
  by (auto simp: distinct_map inj_on_def dest: as_string_inj)

lemma distinct_map_sint: "distinct (ws :: 32 word list) \<Longrightarrow> distinct (map sint ws)"
  by (auto simp: distinct_map inj_on_def intro: signed_word_eqI)

lemma categorical_feed_int32:
  "distinct (c_int_values acc) \<Longrightarrow>
   \<exists>ws. categorical_feed acc (map Int32Tensor bs) = Inr (acc\<lparr>c_int_values := ws\<rparr>)
        \<and> distinct ws \<and> set ws = set (c_int_values acc) \<union> set (concat bs)"
proof (induction bs arbitrary: acc)
  case Nil
  then show ?case by (intro exI [of _ "c_int_values acc"]) simp
next
  case (Cons b bs)
  let ?acc1 = "acc\<lparr>c_int_values := tf_unique (c_int_values acc @ b)\<rparr>"
  have "distinct (c_int_values ?acc1)" by (simp add: distinct_tf_unique)
  from Cons.IH [OF this] obtain ws where
    ws: "categorical_feed ?acc1 (map Int32Tensor bs) = Inr (?acc1\<lparr>c_int_values := ws\<rparr>)"
      "distinct ws" "set ws = set (c_int_values ?acc1) \<union> set (concat bs)"
    by blast
  show ?case
    using ws by (intro exI [of _ ws]) (auto simp: CategoricalAccumulator_update_def set_tf_unique)
qed

lemma get_unique_values_ints:
  "distinct ws \<Longrightarrow> get_unique_values \<lparr>c_values = [], c_int_values = ws\<rparr> = map as_string ws"
  by (simp add: get_unique_values_def tf_unique_distinct distinct_map_as_string)


lemma sort_distinct_sint:
  "distinct (ws :: 32 word list) \<Longrightarrow> sort (map sint ws) = sorted_list_of_set (sint ` set ws)"
proof -
  assume "distinct ws"
  then have d: "distinct (map sint ws)" by (rule distinct_map_sint)
  have "sorted_list_of_set (set (map sint ws)) = sort (remdups (map sint ws))"
    by (rule sorted_list_of_set_sort_remdups)
  with d show ?thesis by (simp add: distinct_remdups_id)
qed

lemma card_distinct_sint:
  "distinct (ws :: 32 word list) \<Longrightarrow> card (sint ` set ws) = length ws"
proof -
  assume "distinct ws"
  then have "distinct (map sint ws)" by (rule distinct_map_sint)
  then have "card (set (map sint ws)) = length (map sint ws)" by (rule distinct_card)
  then show ?thesis by simp
qed

text \<open>
  Claim C6. For a categorical feature declared int32 whose accumulator was fed any
  sequence of int32 batches, every update succeeds and the finalized record has as its
  vocabulary the distinct observed integers in ascending order, and as its size their
  number; the record therefore depends on the set of observed values only, not on how they
  were cut into batches or ordered. Fed 3, 1, 2 and then 2, 5 the vocabulary is
  1, 2, 3, 5 and the size 4.
\<close>

theorem categorical_int_vocabulary_sorted:
  "(\<exists>acc. categorical_feed CategoricalAccumulator_init (map Int32Tensor bs) = Inr acc
      \<and> categorical_final
           ((DatasetStatistics_init [(feature, DT_int32)] [] [feature] [] [] False)
              \<lparr>categorical_stats := [(feature, acc)]\<rparr>) feature
         = Inr (PyDict
             [(''size'', PyInt (int (card (sint ` set (concat bs))))),
              (''vocab'', PyList (map PyInt (sorted_list_of_set (sint ` set (concat bs))))),
              (''dtype'', TfDType DT_int32)]))
   \<and> (\<exists>acc. categorical_feed CategoricalAccumulator_init [Int32Tensor [3, 1, 2], Int32Tensor [2, 5]] = Inr acc
      \<and> categorical_final
           ((DatasetStatistics_init [(''f'', DT_int32)] [] [''f''] [] [] False)
              \<lparr>categorical_stats := [(''f'', acc)]\<rparr>) ''f''
         = Inr (PyDict
             [(''size'', PyInt 4),
              (''vocab'', PyList [PyInt 1, PyInt 2, PyInt 3, PyInt 5]),
              (''dtype'', TfDType DT_int32)]))"
proof -
  have general: "\<exists>acc. categorical_feed CategoricalAccumulator_init (map Int32Tensor bs) = Inr acc
      \<and> categorical_final
           ((DatasetStatistics_init [(feature, DT_int32)] [] [feature] [] [] False)
              \<lparr>categorical_stats := [(feature, acc)]\<rparr>) feature
         = Inr (PyDict
             [(''size'', PyInt (int (card (sint ` set (concat bs))))),
              (''vocab'', PyList (map PyInt (sorted_list_of_set (sint ` set (concat bs))))),
              (''dtype'', TfDType DT_int32)])"
  proof -
    have "distinct (c_int_values CategoricalAccumulator_init)"
      by (simp add: CategoricalAccumulator_init_def)
    from categorical_feed_int32 [OF this, of bs] obtain ws where
      feed: "categorical_feed CategoricalAccumulator_init (map Int32Tensor bs)
              = Inr \<lparr>c_values = [], c_int_values = ws\<rparr>"
      and d: "distinct ws" and s: "set ws = set (concat bs)"
      by (auto simp: CategoricalAccumulator_init_def)
    have len: "length (sorted_list_of_set (sint ` set ws)) = card (sint ` set ws)"
      by simp
    have "categorical_final
           ((DatasetStatistics_init [(feature, DT_int32)] [] [feature] [] [] False)
              \<lparr>categorical_stats := [(feature, \<lparr>c_values = [], c_int_values = ws\<rparr>)]\<rparr>) feature
         = Inr (PyDict
             [(''size'', PyInt (int (card (sint ` set ws)))),
              (''vocab'', PyList (map PyInt (sorted_list_of_set (sint ` set ws)))),
              (''dtype'', TfDType DT_int32)])"
      by (simp add: categorical_final_def DatasetStatistics_init_def dict_lookup_def
          get_unique_values_ints [OF d] map_err_py_int_as_string sort_distinct_sint [OF d] len)
    with feed s show ?thesis by auto
  qed
  have feed: "categorical_feed CategoricalAccumulator_init [Int32Tensor [3, 1, 2], Int32Tensor [2, 5]]
      = Inr \<lparr>c_values = [], c_int_values = [3, 1, 2, 5]\<rparr>"
    by (simp add: CategoricalAccumulator_update_def CategoricalAccumulator_init_def tf_unique_def)
  have final: "categorical_final
           ((DatasetStatistics_init [(''f'', DT_int32)] [] [''f''] [] [] False)
              \<lparr>categorical_stats := [(''f'', \<lparr>c_values = [], c_int_values = [3, 1, 2, 5]\<rparr>)]\<rparr>) ''f''
         = Inr (PyDict
             [(''size'', PyInt 4),
              (''vocab'', PyList [PyInt 1, PyInt 2, PyInt 3, PyInt 5]),
              (''dtype'', TfDType DT_int32)])"
    by code_simp
  from general feed final show ?thesis by simp
qed

section \<open>The word set of a text feature\<close>

lemma re_space_isspace: "re_space c \<Longrightarrow> c_isspace c"
  by (auto simp: re_space_def c_isspace_def)

lemma strings_split_dropWhile_re_space: "strings_split (dropWhile re_space cs) = strings_split cs"
  by (induction cs) (simp_all add: re_space_isspace)

lemma regex_replace_ws_prefix:
  "list_all (\<lambda>x. \<not> re_space x) xs \<Longrightarrow> regex_replace_ws (xs @ ys) = xs @ regex_replace_ws ys"
  by (induction xs) simp_all

lemma takeWhile_nonspace_Nil:
  "ys = [] \<or> c_isspace (hd ys) \<Longrightarrow> takeWhile (\<lambda>d. \<not> c_isspace d) ys = []"
  by (cases ys) auto

lemma dropWhile_nonspace_id:
  "ys = [] \<or> c_isspace (hd ys) \<Longrightarrow> dropWhile (\<lambda>d. \<not> c_isspace d) ys = ys"
  by (cases ys) auto

lemma strings_split_prefix:
  assumes "list_all (\<lambda>d. \<not> c_isspace d) (c # xs)" and "ys = [] \<or> c_isspace (hd ys)"
  shows "strings_split ((c # xs) @ ys) = (c # xs) # strings_split ys"
proof -
  from assms(1) have c: "\<not> c_isspace c" and xs: "\<forall>x\<in>set xs. \<not> c_isspace x"
    by (simp_all add: list_all_iff)
  have t: "takeWhile (\<lambda>d. \<not> c_isspace d) (xs @ ys) = xs"
    using xs by (simp add: takeWhile_append2 takeWhile_nonspace_Nil [OF assms(2)])
  have d: "dropWhile (\<lambda>d. \<not> c_isspace d) (xs @ ys) = ys"
    using xs by (simp add: dropWhile_append2 dropWhile_nonspace_id [OF assms(2)])
  show ?thesis
    using c by (simp add: t d)
qed

lemma regex_replace_ws_head:
  "ys = [] \<or> c_isspace (hd ys) \<Longrightarrow>
   regex_replace_ws ys = [] \<or> c_isspace (hd (regex_replace_ws ys))"
  by (cases ys) (auto simp: c_isspace_def)

lemma dropWhile_nonspace_head:
  "dropWhile (\<lambda>d. \<not> c_isspace d) cs = [] \<or> c_isspace (hd (dropWhile (\<lambda>d. \<not> c_isspace d) cs))"
  using hd_dropWhile [of "\<lambda>d. \<not> c_isspace d" cs] by auto

lemma strings_split_regex_replace_ws: "strings_split (regex_replace_ws s) = strings_split s"
proof (induction s rule: length_induct)
  case (1 s)
  show ?case
  proof (cases s)
    case Nil
    then show ?thesis by simp
  next
    case (Cons c cs)
    show ?thesis
    proof (cases "c_isspace c")
      case True
      show ?thesis
      proof (cases "re_space c")
        case re: True
        have "length (dropWhile re_space cs) < length s"
          using Cons by (simp add: less_Suc_eq_le length_dropWhile_le)
        with 1 have "strings_split (regex_replace_ws (dropWhile re_space cs))
            = strings_split (dropWhile re_space cs)"
          by blast
        with True re Cons show ?thesis
          by (simp add: strings_split_dropWhile_re_space c_isspace_def)
      next
        case re: False
        have "length cs < length s" using Cons by simp
        with 1 have "strings_split (regex_replace_ws cs) = strings_split cs" by blast
        with True re Cons show ?thesis by simp
      qed
    next
      case False
      let ?xs = "takeWhile (\<lambda>d. \<not> c_isspace d) cs"
      let ?ys = "dropWhile (\<lambda>d. \<not> c_isspace d) cs"
      have s: "s = (c # ?xs) @ ?ys" using Cons by simp
      have all: "list_all (\<lambda>d. \<not> c_isspace d) (c # ?xs)"
        using False by (auto simp: list_all_iff dest: set_takeWhileD)
      then have all': "list_all (\<lambda>x. \<not> re_space x) (c # ?xs)"
        by (auto simp: list_all_iff dest: re_space_isspace)
      have hd: "?ys = [] \<or> c_isspace (hd ?ys)" by (rule dropWhile_nonspace_head)
      have "length ?ys < length s"
        using Cons by (simp add: less_Suc_eq_le length_dropWhile_le)
      with 1 have IH: "strings_split (regex_replace_ws ?ys) = strings_split ?ys" by blast
      have "strings_split (regex_replace_ws s) = strings_split ((c # ?xs) @ regex_replace_ws ?ys)"
        by (subst s) (simp only: regex_replace_ws_prefix [OF all'])
      also have "\<dots> = (c # ?xs) # strings_split (regex_replace_ws ?ys)"
        by (rule strings_split_prefix [OF all regex_replace_ws_head [OF hd]])
      also have "\<dots> = (c # ?xs) # strings_split ?ys" by (simp only: IH)
      also have "\<dots> = strings_split ((c # ?xs) @ ?ys)"
        by (rule strings_split_prefix [OF all hd, symmetric])
      also have "\<dots> = strings_split s" by (simp only: s [symmetric])
      finally show ?thesis .
    qed
  qed
qed

lemma spec_fields_unfold:
  "spec_fields cs = takeWhile (\<lambda>d. \<not> c_isspace d) cs
     # (case dropWhile (\<lambda>d. \<not> c_isspace d) cs of [] \<Rightarrow> [] | d # ds \<Rightarrow> spec_fields ds)"
  by (induction cs) simp_all

lemma filter_spec_fields_rest:
  "filter (\<lambda>t. t \<noteq> [])
     (case dropWhile (\<lambda>d. \<not> c_isspace d) cs of [] \<Rightarrow> [] | d # ds \<Rightarrow> spec_fields ds)
   = filter (\<lambda>t. t \<noteq> []) (spec_fields (dropWhile (\<lambda>d. \<not> c_isspace d) cs))"
proof (cases "dropWhile (\<lambda>d. \<not> c_isspace d) cs")
  case Nil
  show ?thesis unfolding Nil by simp
next
  case (Cons d ds)
  with dropWhile_nonspace_head [of cs] have "c_isspace d" by simp
  then show ?thesis unfolding Cons by simp
qed

lemma strings_split_spec_fields: "strings_split s = filter (\<lambda>t. t \<noteq> []) (spec_fields s)"
proof (induction s rule: strings_split.induct)
  case 1
  show ?case by simp
next
  case (2 c cs)
  show ?case
  proof (cases "c_isspace c")
    case True
    with 2 show ?thesis by simp
  next
    case False
    with 2 have IH: "strings_split (dropWhile (\<lambda>d. \<not> c_isspace d) cs)
        = filter (\<lambda>t. t \<noteq> []) (spec_fields (dropWhile (\<lambda>d. \<not> c_isspace d) cs))"
      by simp
    have "filter (\<lambda>t. t \<noteq> []) (spec_fields (c # cs))
        = (c # takeWhile (\<lambda>d. \<not> c_isspace d) cs)
            # filter (\<lambda>t. t \<noteq> []) (spec_fields (dropWhile (\<lambda>d. \<not> c_isspace d) cs))"
      using False
      by (subst spec_fields_unfold) (simp add: filter_spec_fields_rest)
    with False IH show ?thesis by simp
  qed
qed

lemma code_tokens_eq_spec_tokens:
  "map strings_lower (strings_split (regex_replace_ws s)) = spec_tokens s"
  by (simp add: spec_tokens_def strings_split_regex_replace_ws flip: strings_split_spec_fields)

lemma spec_tokens_whitespace: "list_all c_isspace s \<Longrightarrow> spec_tokens s = []"
  by (induction s) (simp_all add: spec_tokens_def)

lemma text_update_spec:
  "TextAccumulator_update acc (StringTensor texts)
     = Inr (acc\<lparr>t_words := tf_unique (t_words acc @ concat (map spec_tokens texts))\<rparr>)"
proof -
  have "map strings_lower (concat (map strings_split (map regex_replace_ws texts)))
      = concat (map spec_tokens texts)"
    by (induction texts) (simp_all add: code_tokens_eq_spec_tokens)
  then show ?thesis
    by (simp add: TextAccumulator_update_def Let_def)
qed

lemma text_feed_spec:
  "\<exists>acc'. text_feed acc (map StringTensor batches) = Inr acc'
      \<and> set (t_words acc') = set (t_words acc) \<union> set (concat (map spec_tokens (concat batches)))"
proof (induction batches arbitrary: acc)
  case Nil
  show ?case by simp
next
  case (Cons b bs)
  let ?acc1 = "acc\<lparr>t_words := tf_unique (t_words acc @ concat (map spec_tokens b))\<rparr>"
  from Cons [of ?acc1] obtain acc' where
    "text_feed ?acc1 (map StringTensor bs) = Inr acc'"
    "set (t_words acc') = set (t_words ?acc1) \<union> set (concat (map spec_tokens (concat bs)))"
    by blast
  then show ?case
    by (intro exI [of _ acc']) (auto simp: text_update_spec set_tf_unique)
qed

text \<open>
  Claim C7. For every sequence of batches of texts fed to a fresh TextAccumulator, every
  update succeeds and the accumulated word set is the set of the tokens of all the texts,
  where the tokens of a text are the pieces between whitespace bytes, the empty pieces
  dropped, each lowercased. The empty text and a text of whitespace only have no tokens,
  and adding them to a batch does not change the update. Fed "The Quick" and "fox jumps"
  the word set is the, quick, fox, jumps.
\<close>

theorem text_words_are_spec_tokens:
  "(\<exists>acc. text_feed TextAccumulator_init (map StringTensor batches) = Inr acc
      \<and> set (get_unique_words acc) = set (concat (map spec_tokens (concat batches))))
   \<and> spec_tokens [] = []
   \<and> spec_tokens (filter c_isspace s) = []
   \<and> TextAccumulator_update acc0 (StringTensor (texts @ [[], filter c_isspace s]))
       = TextAccumulator_update acc0 (StringTensor texts)
   \<and> (\<exists>acc. text_feed TextAccumulator_init [StringTensor [''The Quick'', ''fox jumps'']] = Inr acc
      \<and> set (get_unique_words acc) = {''the'', ''quick'', ''fox'', ''jumps''})"
proof -
  have general: "\<exists>acc. text_feed TextAccumulator_init (map StringTensor batches) = Inr acc
      \<and> set (get_unique_words acc) = set (concat (map spec_tokens (concat batches)))"
    using text_feed_spec [of TextAccumulator_init batches]
    by (simp add: get_unique_words_def TextAccumulator_init_def)
  have e: "spec_tokens [] = []"
    by (simp add: spec_tokens_def)
  have w: "spec_tokens (filter c_isspace s) = []"
    by (rule spec_tokens_whitespace) (simp add: list_all_iff)
  have u: "TextAccumulator_update acc0 (StringTensor (texts @ [[], filter c_isspace s]))
       = TextAccumulator_update acc0 (StringTensor texts)"
    by (simp add: text_update_spec e w)
  have feed: "text_feed TextAccumulator_init [StringTensor [''The Quick'', ''fox jumps'']]
      = Inr \<lparr>t_words = [''the'', ''quick'', ''fox'', ''jumps'']\<rparr>"
    by code_simp
  have scenario: "\<exists>acc. text_feed TextAccumulator_init [StringTensor [''The Quick'', ''fox jumps'']] = Inr acc
      \<and> set (get_unique_words acc) = {''the'', ''quick'', ''fox'', ''jumps''}"
    unfolding feed by (auto simp: get_unique_words_def)
  from general e w u scenario show ?thesis by blast
qed

section \<open>Round trip of a persisted report\<close>

lemma final_example: "compute_final_statistics
     ((DatasetStatistics_init [(''x'', DT_float32), (''t'', DT_string)] [''x''] [] [''t''] [] False)
        \<lparr>numeric_stats := [(''x'', welford_feed WelfordAccumulator_init [[1, 2, 3], [4, 5]])],
         text_stats := [(''t'', \<lparr>t_words = [''the'']\<rparr>)]\<rparr>)
   = Inr (PyDict
       [(''numeric_stats'', PyDict [(''x'', PyDict
           [(''mean'', NpFloat 3), (''count'', NpFloat 5), (''var'', NpFloat (5 / 2)),
            (''dtype'', TfDType DT_float32)])]),
        (''categorical_stats'', PyDict []),
        (''text_stats'', PyDict [(''t'', PyDict
           [(''size'', PyInt 1), (''vocab'', PyList [PyBytes ''the'']), (''dtype'', TfDType DT_string)])]),
        (''date_stats'', PyDict [])])"
  by (simp add: compute_final_statistics_def DatasetStatistics_init_def fresh_stats_def
      numeric_final_def text_final_def dict_lookup_def get_unique_words_def
      welford_feed_def WelfordAccumulator_init_def WelfordAccumulator_update_def
      WelfordAccumulator_count_def WelfordAccumulator_variance_def Let_def)

lemma save_example: "save_stats (PyDict
       [(''numeric_stats'', PyDict [(''x'', PyDict
           [(''mean'', NpFloat 3), (''count'', NpFloat 5), (''var'', NpFloat (5 / 2)),
            (''dtype'', TfDType DT_float32)])]),
        (''categorical_stats'', PyDict []),
        (''text_stats'', PyDict [(''t'', PyDict
           [(''size'', PyInt 1), (''vocab'', PyList [PyBytes ''the'']), (''dtype'', TfDType DT_string)])]),
        (''date_stats'', PyDict [])])
   = Inr (JObj
       [(''numeric_stats'', JObj [(''x'', JObj
           [(''mean'', JFloat 3), (''count'', JFloat 5), (''var'', JFloat (5 / 2)),
            (''dtype'', JStr ''float32'')])]),
        (''categorical_stats'', JObj []),
        (''text_stats'', JObj [(''t'', JObj
           [(''size'', JInt 1),
            (''vocab'', JArr [JStr [CHR ''b'', CHR 0x27, CHR ''t'', CHR ''h'', CHR ''e'', CHR 0x27]]),
            (''dtype'', JStr ''string'')])]),
        (''date_stats'', JObj [])])"
  by (simp add: save_stats_def custom_serializer_def py_bytes_str_def bytes_escape_def Let_def)

lemma load_example: "load_stats False (Some (JObj
       [(''numeric_stats'', JObj [(''x'', JObj
           [(''mean'', JFloat 3), (''count'', JFloat 5), (''var'', JFloat (5 / 2)),
            (''dtype'', JStr ''float32'')])]),
        (''categorical_stats'', JObj []),
        (''text_stats'', JObj [(''t'', JObj
           [(''size'', JInt 1),
            (''vocab'', JArr [JStr [CHR ''b'', CHR 0x27, CHR ''t'', CHR ''h'', CHR ''e'', CHR 0x27]]),
            (''dtype'', JStr ''string'')])]),
        (''date_stats'', JObj [])]))
   = Inr (PyDict
       [(''numeric_stats'', PyDict [(''x'', PyDict
           [(''mean'', PyFloat 3), (''count'', PyFloat 5), (''var'', PyFloat (5 / 2)),
            (''dtype'', TfDType DT_float32)])]),
        (''categorical_stats'', PyDict []),
        (''text_stats'', PyDict [(''t'', PyDict
           [(''size'', PyInt 1),
            (''vocab'', PyList [PyStr [CHR ''b'', CHR 0x27, CHR ''t'', CHR ''h'', CHR ''e'', CHR 0x27]]),
            (''dtype'', TfDType DT_string)])]),
        (''date_stats'', PyDict [])])"
  by (simp add: load_stats_def restore_stats_type_def restore_dtype_def as_dtype_def)

text \<open>
  Claim C4, at an engine with the numeric feature x, fed 1, 2, 3 and then 4, 5, and the
  text feature t, fed the one text "the". The finalized report holds the word as the
  bytes object b'the'. Persisting succeeds, and loading the persisted document succeeds,
  but the loaded vocabulary holds the six-character string "b'the'" (byte 39 is the
  apostrophe): neither the persisted bytes nor the text "the". The numeric entries of the
  same report, count included, come back as plain floats with their values unchanged, and
  the dtype tags are restored.
\<close>

theorem text_vocabulary_not_restored:
  "text_feed TextAccumulator_init [StringTensor [''the'']] = Inr \<lparr>t_words = [''the'']\<rparr>
   \<and> compute_final_statistics
     ((DatasetStatistics_init [(''x'', DT_float32), (''t'', DT_string)] [''x''] [] [''t''] [] False)
        \<lparr>numeric_stats := [(''x'', welford_feed WelfordAccumulator_init [[1, 2, 3], [4, 5]])],
         text_stats := [(''t'', \<lparr>t_words = [''the'']\<rparr>)]\<rparr>)
   = Inr (PyDict
       [(''numeric_stats'', PyDict [(''x'', PyDict
           [(''mean'', NpFloat 3), (''count'', NpFloat 5), (''var'', NpFloat (5 / 2)),
            (''dtype'', TfDType DT_float32)])]),
        (''categorical_stats'', PyDict []),
        (''text_stats'', PyDict [(''t'', PyDict
           [(''size'', PyInt 1), (''vocab'', PyList [PyBytes ''the'']), (''dtype'', TfDType DT_string)])]),
        (''date_stats'', PyDict [])])
   \<and> save_stats (PyDict
       [(''numeric_stats'', PyDict [(''x'', PyDict
           [(''mean'', NpFloat 3), (''count'', NpFloat 5), (''var'', NpFloat (5 / 2)),
            (''dtype'', TfDType DT_float32)])]),
        (''categorical_stats'', PyDict []),
        (''text_stats'', PyDict [(''t'', PyDict
           [(''size'', PyInt 1), (''vocab'', PyList [PyBytes ''the'']), (''dtype'', TfDType DT_string)])]),
        (''date_stats'', PyDict [])])
   = Inr (JObj
       [(''numeric_stats'', JObj [(''x'', JObj
           [(''mean'', JFloat 3), (''count'', JFloat 5), (''var'', JFloat (5 / 2)),
            (''dtype'', JStr ''float32'')])]),
        (''categorical_stats'', JObj []),
        (''text_stats'', JObj [(''t'', JObj
           [(''size'', JInt 1),
            (''vocab'', JArr [JStr [CHR ''b'', CHR 0x27, CHR ''t'', CHR ''h'', CHR ''e'', CHR 0x27]]),
            (''dtype'', JStr ''string'')])]),
        (''date_stats'', JObj [])])
   \<and> load_stats False (Some (JObj
       [(''numeric_stats'', JObj [(''x'', JObj
           [(''mean'', JFloat 3), (''count'', JFloat 5), (''var'', JFloat (5 / 2)),
            (''dtype'', JStr ''float32'')])]),
        (''categorical_stats'', JObj []),
        (''text_stats'', JObj [(''t'', JObj
           [(''size'', JInt 1),
            (''vocab'', JArr [JStr [CHR ''b'', CHR 0x27, CHR ''t'', CHR ''h'', CHR ''e'', CHR 0x27]]),
            (''dtype'', JStr ''string'')])]),
        (''date_stats'', JObj [])]))
   = Inr (PyDict
       [(''numeric_stats'', PyDict [(''x'', PyDict
           [(''mean'', PyFloat 3), (''count'', PyFloat 5), (''var'', PyFloat (5 / 2)),
            (''dtype'', TfDType DT_float32)])]),
        (''categorical_stats'', PyDict []),
        (''text_stats'', PyDict [(''t'', PyDict
           [(''size'', PyInt 1),
            (''vocab'', PyList [PyStr [CHR ''b'', CHR 0x27, CHR ''t'', CHR ''h'', CHR ''e'', CHR 0x27]]),
            (''dtype'', TfDType DT_string)])]),
        (''date_stats'', PyDict [])])
   \<and> PyStr [CHR ''b'', CHR 0x27, CHR ''t'', CHR ''h'', CHR ''e'', CHR 0x27] \<noteq> PyBytes ''the''
   \<and> PyStr [CHR ''b'', CHR 0x27, CHR ''t'', CHR ''h'', CHR ''e'', CHR 0x27] \<noteq> PyStr ''the''"
proof -
  have feed: "text_feed TextAccumulator_init [StringTensor [''the'']] = Inr \<lparr>t_words = [''the'']\<rparr>"
    by code_simp
  show ?thesis
    using feed final_example save_example load_example by simp
qed

end
